theory Spec2Isabelle
  imports Complex_Main
begin

section \<open>The conversion orchestrator of convertVideo.py\<close>

text \<open>
  A shallow embedding of the orchestrating methods of \<^verbatim>\<open>VideoConverterApp\<close>:
  \<^verbatim>\<open>_normalize_dimension\<close>, \<^verbatim>\<open>convert_single_video\<close>, \<^verbatim>\<open>convert_videos\<close>, the
  simulated-progress timer and the status-message timer. Widgets are left out; what the
  methods hand to the progress bar, the progress label, the status box, the Tk timer
  queue, the file system and MoviePy is recorded, in order, in a trace.
  Python floats are taken as exact reals, Python strings as lists of characters.
\<close>

subsection \<open>Dimension normalisation\<close>

text \<open>
  Python's \<^verbatim>\<open>round\<close> on a float rounds to the nearest integer and a tie to the even
  neighbour; on an integer it is the identity, which the same definition gives.
\<close>

definition py_round :: "real \<Rightarrow> int" where
  "py_round x =
     (let f = \<lfloor>x\<rfloor>; d = x - of_int f
      in if d < 1 / 2 then f
         else if 1 / 2 < d then f + 1
         else if even f then f else f + 1)"

text \<open>
  \<^verbatim>\<open>
  def _normalize_dimension(value):
      even = int(round(value))
      if even % 2 != 0:
          even -= 1
      return max(2, even)
  \<close>
\<close>

definition normalize_dimension :: "real \<Rightarrow> int" where
  "normalize_dimension v =
     (let even0 = py_round v;
          even1 = (if even0 mod 2 \<noteq> 0 then even0 - 1 else even0)
      in max 2 even1)"

subsection \<open>Paths\<close>

text \<open>
  \<^verbatim>\<open>pathlib.Path\<close> on a POSIX system: a path is its root (empty, one slash or two) and
  its components; empty components and single dots are dropped when a string is read.
  \<open>path_parent\<close>, \<open>path_name\<close> and \<open>path_stem\<close> are the attributes \<^verbatim>\<open>parent\<close>,
  \<^verbatim>\<open>name\<close> and \<^verbatim>\<open>stem\<close>, \<open>str_path\<close> is \<^verbatim>\<open>str\<close>.
\<close>

record pure_path =
  path_root :: string
  path_parts :: "string list"

fun split_sep :: "char \<Rightarrow> string \<Rightarrow> string list" where
  "split_sep c [] = [[]]"
| "split_sep c (x # xs) =
     (if x = c then [] # split_sep c xs
      else (case split_sep c xs of
              [] \<Rightarrow> [[x]]
            | p # ps \<Rightarrow> (x # p) # ps))"

fun join_sep :: "string \<Rightarrow> string list \<Rightarrow> string" where
  "join_sep s [] = []"
| "join_sep s [p] = p"
| "join_sep s (p # q # ps) = p @ s @ join_sep s (q # ps)"

definition parse_root :: "string \<Rightarrow> string" where
  "parse_root s =
     (if take 2 s = ''//'' \<and> take 3 s \<noteq> ''///'' then ''//''
      else if take 1 s = ''/'' then ''/''
      else [])"

definition Path :: "string \<Rightarrow> pure_path" where
  "Path s =
     \<lparr>path_root = parse_root s,
      path_parts = filter (\<lambda>p. p \<noteq> [] \<and> p \<noteq> ''.'') (split_sep CHR ''/'' s)\<rparr>"

definition str_path :: "pure_path \<Rightarrow> string" where
  "str_path p =
     (if path_root p = [] \<and> path_parts p = [] then ''.''
      else path_root p @ join_sep ''/'' (path_parts p))"

definition path_parent :: "pure_path \<Rightarrow> pure_path" where
  "path_parent p =
     (if path_parts p = [] then p else p\<lparr>path_parts := butlast (path_parts p)\<rparr>)"

definition path_name :: "pure_path \<Rightarrow> string" where
  "path_name p = (if path_parts p = [] then [] else last (path_parts p))"

definition rfind :: "char \<Rightarrow> string \<Rightarrow> nat option" where
  "rfind c s =
     (case filter (\<lambda>i. s ! i = c) (rev [0..<length s]) of
        [] \<Rightarrow> None
      | i # _ \<Rightarrow> Some i)"

text \<open>
  \<^verbatim>\<open>
  i = name.rfind('.')
  if 0 < i < len(name) - 1: return name[:i]
  else: return name
  \<close>
\<close>

definition path_stem :: "pure_path \<Rightarrow> string" where
  "path_stem p =
     (case rfind CHR ''.'' (path_name p) of
        None \<Rightarrow> path_name p
      | Some i \<Rightarrow>
          if 0 < i \<and> int i < int (length (path_name p)) - 1 then take i (path_name p)
          else path_name p)"

text \<open>\<^verbatim>\<open>p / s\<close>: an absolute right operand replaces the left one.\<close>

definition joinpath :: "pure_path \<Rightarrow> string \<Rightarrow> pure_path" where
  "joinpath p s =
     (let q = Path s
      in if path_root q \<noteq> [] then q
         else \<lparr>path_root = path_root p, path_parts = path_parts p @ path_parts q\<rparr>)"

text \<open>\<^verbatim>\<open>str.lower\<close> on the ASCII letters, which is all a format name holds.\<close>

definition lower_char :: "char \<Rightarrow> char" where
  "lower_char c =
     (case map_of (zip ''ABCDEFGHIJKLMNOPQRSTUVWXYZ'' ''abcdefghijklmnopqrstuvwxyz'') c of
        Some l \<Rightarrow> l
      | None \<Rightarrow> c)"

definition lower :: "string \<Rightarrow> string" where
  "lower s = map lower_char s"

subsection \<open>What the methods do to the outside\<close>

text \<open>
  The exceptions that reach \<^verbatim>\<open>except Exception\<close>, named by what raised them:
  \<^verbatim>\<open>mkdir\<close>, \<^verbatim>\<open>VideoFileClip\<close>, \<^verbatim>\<open>resize\<close>, a writer, a division by zero and
  \<^verbatim>\<open>random.choice\<close> on an empty list.
\<close>

datatype exn =
    OutputPathError
  | UnreadableSource
  | ResizeError
  | EncodeError
  | ZeroDivisionError
  | IndexError

text \<open>
  A MoviePy clip: the reader that \<^verbatim>\<open>VideoFileClip\<close> opened and the frame size.
  \<^verbatim>\<open>clip.resize\<close> returns a copy with a new size that shares the reader, and
  \<^verbatim>\<open>clip.close()\<close> closes the reader of the clip it is called on.
\<close>

record clip =
  reader :: nat
  clip_w :: int
  clip_h :: int

text \<open>
  The events of a trace: \<^verbatim>\<open>progress_bar.set(v)\<close>, \<^verbatim>\<open>progress_label.configure(text=...)\<close>,
  \<^verbatim>\<open>log_status(...)\<close>, \<^verbatim>\<open>messagebox.showinfo\<close> with the two counts,
  \<^verbatim>\<open>root.after(ms, callback)\<close>, \<^verbatim>\<open>output_dir.mkdir(parents=True, exist_ok=True)\<close>,
  \<^verbatim>\<open>VideoFileClip(path)\<close>, \<^verbatim>\<open>clip.resize(newsize=(w, h))\<close>, \<^verbatim>\<open>clip.write_gif\<close> with
  path and fps, \<^verbatim>\<open>clip.write_videofile\<close> with path, codec and audio codec, and
  \<^verbatim>\<open>clip.close()\<close>. A log line keeps the values that the f-string formats.
\<close>

datatype callback = Animate_simulated_progress | Show_funny_message | Reset_progress

datatype label = Converting int int | Complete

datatype log_line =
    Starting string
  | Rule
  | Converting_file string
  | Converted string string
  | Failed string exn
  | Summary int int
  | Funny string

datatype event =
    Progress_set real
  | Label_set label
  | Log log_line
  | Showinfo int int
  | After nat callback
  | Mkdir string
  | Open_clip string
  | Resize clip int int
  | Write_gif clip string int
  | Write_videofile clip string string string
  | Close clip

text \<open>
  The fields of \<^verbatim>\<open>self\<close> that the worker and the two timers share.
\<close>

record app =
  simulated_progress :: real
  simulated_progress_running :: bool
  current_file_start_progress :: real
  current_file_end_progress :: real
  funny_message_running :: bool
  used_messages :: "string list"

text \<open>
  What the user chose before the batch starts: \<^verbatim>\<open>selected_files\<close>,
  \<^verbatim>\<open>output_folder\<close> and the Tk variables.
\<close>

record settings =
  selected_files :: "string list"
  output_folder :: "string option"
  format_var :: string
  fps_var :: int
  scale_var :: real
  max_width_var :: int
  full_width_var :: bool

text \<open>
  The file system and MoviePy as one job meets them: which calls raise, and which
  clip \<^verbatim>\<open>VideoFileClip\<close> returns (\<open>None\<close>: it raises).
\<close>

record engine =
  mkdir_raises :: "string \<Rightarrow> bool"
  VideoFileClip :: "string \<Rightarrow> clip option"
  resize_raises :: "clip \<Rightarrow> int \<Rightarrow> int \<Rightarrow> bool"
  write_gif_raises :: "clip \<Rightarrow> string \<Rightarrow> int \<Rightarrow> bool"
  write_videofile_raises :: "clip \<Rightarrow> string \<Rightarrow> string \<Rightarrow> string \<Rightarrow> bool"

subsection \<open>The simulated-progress timer\<close>

text \<open>
  \<^verbatim>\<open>
  def animate_simulated_progress(self):
      if not self.simulated_progress_running:
          return
      max_progress = self.current_file_start_progress
          + (self.current_file_end_progress - self.current_file_start_progress) * 0.9
      if self.simulated_progress < max_progress:
          increment = (self.current_file_end_progress - self.current_file_start_progress) * 0.02
          self.simulated_progress = min(self.simulated_progress + increment, max_progress)
          self.progress_bar.set(self.simulated_progress)
      if self.simulated_progress_running:
          self.root.after(150, self.animate_simulated_progress)
  \<close>
  Every method returns the new state and the events it caused, oldest first.
\<close>

definition max_progress :: "app \<Rightarrow> real" where
  "max_progress s =
     current_file_start_progress s
       + (current_file_end_progress s - current_file_start_progress s) * (9 / 10)"

definition animate_simulated_progress :: "app \<Rightarrow> app \<times> event list" where
  "animate_simulated_progress s =
     (if \<not> simulated_progress_running s then (s, [])
      else
        let (s1, e1) =
              (if simulated_progress s < max_progress s then
                 let increment =
                       (current_file_end_progress s - current_file_start_progress s) * (2 / 100);
                     s' = s\<lparr>simulated_progress :=
                             min (simulated_progress s + increment) (max_progress s)\<rparr>
                 in (s', [Progress_set (simulated_progress s')])
               else (s, []))
        in if simulated_progress_running s1
           then (s1, e1 @ [After 150 Animate_simulated_progress])
           else (s1, e1))"

definition start_simulated_progress :: "app \<Rightarrow> app \<times> event list" where
  "start_simulated_progress s =
     animate_simulated_progress (s\<lparr>simulated_progress_running := True\<rparr>)"

definition stop_simulated_progress :: "app \<Rightarrow> app" where
  "stop_simulated_progress s = s\<lparr>simulated_progress_running := False\<rparr>"

subsection \<open>The status-message timer\<close>

text \<open>
  \<^verbatim>\<open>
  def get_random_message(self):
      available = [m for m in self.THINKING_MESSAGES if m not in self.used_messages]
      if not available:
          self.used_messages = []
          available = self.THINKING_MESSAGES.copy()
      message = random.choice(available)
      self.used_messages.append(message)
      if len(self.used_messages) > 10:
          self.used_messages.pop(0)
      return message
  \<close>
  The pool \<^verbatim>\<open>THINKING_MESSAGES\<close> is a parameter, and so is the number \<open>r\<close> that
  \<^verbatim>\<open>random.choice\<close> draws: it returns the element at \<open>r mod len\<close>, and raises
  \<^verbatim>\<open>IndexError\<close> on an empty list.
\<close>

definition random_choice :: "nat \<Rightarrow> 'a list \<Rightarrow> exn + 'a" where
  "random_choice r xs = (if xs = [] then Inl IndexError else Inr (xs ! (r mod length xs)))"

definition get_random_message :: "string list \<Rightarrow> nat \<Rightarrow> app \<Rightarrow> (exn + string) \<times> app" where
  "get_random_message pool r s =
     (let available0 = filter (\<lambda>m. m \<notin> set (used_messages s)) pool;
          s1 = (if available0 = [] then s\<lparr>used_messages := []\<rparr> else s);
          available = (if available0 = [] then pool else available0)
      in case random_choice r available of
           Inl e \<Rightarrow> (Inl e, s1)
         | Inr message \<Rightarrow>
             let s2 = s1\<lparr>used_messages := used_messages s1 @ [message]\<rparr>;
                 s3 = (if length (used_messages s2) > 10
                       then s2\<lparr>used_messages := tl (used_messages s2)\<rparr> else s2)
             in (Inr message, s3))"

text \<open>
  \<^verbatim>\<open>
  def show_funny_message(self):
      if not self.funny_message_running:
          return
      message = self.get_random_message()
      self.log_status(f"  {message}")
      delay = random.randint(8000, 10000)
      if self.funny_message_running:
          self.root.after(delay, self.show_funny_message)
  \<close>
  \<open>d\<close> is the number \<^verbatim>\<open>random.randint\<close> draws.
\<close>

definition show_funny_message ::
  "string list \<Rightarrow> nat \<Rightarrow> nat \<Rightarrow> app \<Rightarrow> exn option \<times> app \<times> event list" where
  "show_funny_message pool r d s =
     (if \<not> funny_message_running s then (None, s, [])
      else
        case get_random_message pool r s of
          (Inl e, s1) \<Rightarrow> (Some e, s1, [])
        | (Inr message, s1) \<Rightarrow>
            let delay = 8000 + d mod 2001
            in if funny_message_running s1
               then (None, s1, [Log (Funny message), After delay Show_funny_message])
               else (None, s1, [Log (Funny message)]))"

definition start_funny_messages ::
  "string list \<Rightarrow> nat \<Rightarrow> nat \<Rightarrow> app \<Rightarrow> exn option \<times> app \<times> event list" where
  "start_funny_messages pool r d s =
     show_funny_message pool r d (s\<lparr>funny_message_running := True\<rparr>)"

definition stop_funny_messages :: "app \<Rightarrow> app" where
  "stop_funny_messages s = s\<lparr>funny_message_running := False\<rparr>"

text \<open>
  The Tk main loop runs the callbacks one at a time. A callback that raises is
  reported by Tk and the loop goes on, with the state the callback left.
\<close>

datatype timer_ev = Progress_tick | Message_tick nat nat

fun fire :: "string list \<Rightarrow> timer_ev \<Rightarrow> app \<Rightarrow> app \<times> event list" where
  "fire pool Progress_tick s = animate_simulated_progress s"
| "fire pool (Message_tick r d) s = snd (show_funny_message pool r d s)"

fun fire_all :: "string list \<Rightarrow> timer_ev list \<Rightarrow> app \<Rightarrow> app \<times> event list" where
  "fire_all pool [] s = (s, [])"
| "fire_all pool (t # ts) s =
     (let (s1, e1) = fire pool t s;
          (s2, e2) = fire_all pool ts s1
      in (s2, e1 @ e2))"


subsection \<open>Converting one file\<close>

text \<open>
  \<^verbatim>\<open>clip = clip.resize(newsize=(w, h))\<close>: when the call raises, the variable keeps the
  clip it had.
\<close>

definition resize :: "engine \<Rightarrow> clip \<Rightarrow> int \<Rightarrow> int \<Rightarrow> exn option \<times> clip \<times> event list" where
  "resize eng c tw th =
     (if resize_raises eng c tw th then (Some ResizeError, c, [Resize c tw th])
      else (None, c\<lparr>clip_w := tw, clip_h := th\<rparr>, [Resize c tw th]))"

text \<open>
  \<^verbatim>\<open>
  if scale < 1.0:
      target_width = self._normalize_dimension(clip.w * scale)
      target_height = self._normalize_dimension(clip.h * scale)
      clip = clip.resize(newsize=(target_width, target_height))
  \<close>
\<close>

definition gif_global_scale ::
  "engine \<Rightarrow> settings \<Rightarrow> clip \<Rightarrow> exn option \<times> clip \<times> event list" where
  "gif_global_scale eng cfg c =
     (let scale = scale_var cfg
      in if scale < 1 then
           let target_width = normalize_dimension (of_int (clip_w c) * scale);
               target_height = normalize_dimension (of_int (clip_h c) * scale)
           in resize eng c target_width target_height
         else (None, c, []))"

text \<open>
  \<^verbatim>\<open>
  if not self.full_width_var.get():
      max_width = self.max_width_var.get()
      if clip.w > max_width:
          ratio = max_width / clip.w
          max_width_even = self._normalize_dimension(max_width)
          target_height = self._normalize_dimension(clip.h * ratio)
          clip = clip.resize(newsize=(max_width_even, target_height))
  \<close>
  The division raises when \<^verbatim>\<open>clip.w\<close> is 0.
\<close>

definition gif_max_width_cap ::
  "engine \<Rightarrow> settings \<Rightarrow> clip \<Rightarrow> exn option \<times> clip \<times> event list" where
  "gif_max_width_cap eng cfg c =
     (if \<not> full_width_var cfg then
        let max_width = max_width_var cfg
        in if clip_w c > max_width then
             if clip_w c = 0 then (Some ZeroDivisionError, c, [])
             else
               let ratio = of_int max_width / of_int (clip_w c);
                   max_width_even = normalize_dimension (of_int max_width);
                   target_height = normalize_dimension (of_int (clip_h c) * ratio)
               in resize eng c max_width_even target_height
           else (None, c, [])
      else (None, c, []))"

definition codec_map :: "(string \<times> string) list" where
  "codec_map =
     [(''MP4'', ''libx264''),
      (''MOV'', ''libx264''),
      (''MKV'', ''libx264''),
      (''WEBM'', ''libvpx''),
      (''AVI'', ''mpeg4'')]"

text \<open>
  The body of the \<^verbatim>\<open>try\<close> block, from \<^verbatim>\<open>clip = VideoFileClip(str(input_path))\<close>
  to the write. It returns the exception that left the block, if any, and the value
  of the variable \<^verbatim>\<open>clip\<close> at that moment (\<open>None\<close> as long as nothing was opened).
\<close>

definition convert_try ::
  "engine \<Rightarrow> settings \<Rightarrow> string \<Rightarrow> string \<Rightarrow> string \<Rightarrow> exn option \<times> clip option \<times> event list"
  where
  "convert_try eng cfg input_str target_format output_str =
     (case VideoFileClip eng input_str of
        None \<Rightarrow> (Some UnreadableSource, None, [Open_clip input_str])
      | Some c0 \<Rightarrow>
          if target_format = ''GIF'' then
            let fps = fps_var cfg
            in case gif_global_scale eng cfg c0 of
                 (Some e, c1, e1) \<Rightarrow> (Some e, Some c1, Open_clip input_str # e1)
               | (None, c1, e1) \<Rightarrow>
                   (case gif_max_width_cap eng cfg c1 of
                      (Some e, c2, e2) \<Rightarrow> (Some e, Some c2, Open_clip input_str # e1 @ e2)
                    | (None, c2, e2) \<Rightarrow>
                        (if write_gif_raises eng c2 output_str fps then Some EncodeError else None,
                         Some c2,
                         Open_clip input_str # e1 @ e2 @ [Write_gif c2 output_str fps]))
          else
            let codec = (case map_of codec_map target_format of
                           Some c \<Rightarrow> c
                         | None \<Rightarrow> ''libx264'');
                audio_codec = (if target_format \<in> set [''MP4'', ''MOV'', ''MKV'']
                               then ''aac'' else ''libvorbis'')
            in (if write_videofile_raises eng c0 output_str codec audio_codec
                then Some EncodeError else None,
                Some c0,
                [Open_clip input_str, Write_videofile c0 output_str codec audio_codec]))"

text \<open>
  \<^verbatim>\<open>
  def convert_single_video(self, input_path, target_format):
      input_path = Path(input_path)
      if self.output_folder:
          output_dir = Path(self.output_folder)
      else:
          output_dir = input_path.parent
      output_dir.mkdir(parents=True, exist_ok=True)
      output_name = input_path.stem + '.' + target_format.lower()
      output_path = output_dir / output_name
      self.log_status(f"Converting {input_path.name}...")
      clip = None
      try:
          ...
      finally:
          if clip:
              clip.close()
      return str(output_path)
  \<close>
  \<open>Mkdir\<close> stands for \<^verbatim>\<open>mkdir(parents=True, exist_ok=True)\<close>.
\<close>

definition output_dir_of :: "settings \<Rightarrow> pure_path \<Rightarrow> pure_path" where
  "output_dir_of cfg input_path =
     (case output_folder cfg of
        Some folder \<Rightarrow> if folder \<noteq> [] then Path folder else path_parent input_path
      | None \<Rightarrow> path_parent input_path)"

definition convert_single_video ::
  "engine \<Rightarrow> settings \<Rightarrow> string \<Rightarrow> string \<Rightarrow> (exn + string) \<times> event list" where
  "convert_single_video eng cfg input_path0 target_format =
     (let input_path = Path input_path0;
          output_dir = output_dir_of cfg input_path
      in if mkdir_raises eng (str_path output_dir)
         then (Inl OutputPathError, [Mkdir (str_path output_dir)])
         else
           let output_name = path_stem input_path @ ''.'' @ lower target_format;
               output_path = joinpath output_dir output_name;
               (err, clip, evs) =
                 convert_try eng cfg (str_path input_path) target_format (str_path output_path);
               closing = (case clip of Some c \<Rightarrow> [Close c] | None \<Rightarrow> []);
               trace = Mkdir (str_path output_dir)
                         # Log (Converting_file (path_name input_path)) # evs @ closing
           in case err of
                Some e \<Rightarrow> (Inl e, trace)
              | None \<Rightarrow> (Inr (str_path output_path), trace))"

subsection \<open>Converting the batch\<close>

text \<open>
  \<^verbatim>\<open>
  self.current_file_start_progress = (index - 1) / total
  self.current_file_end_progress = index / total
  \<close>
\<close>

definition progress_range :: "int \<Rightarrow> int \<Rightarrow> real \<times> real" where
  "progress_range index total_n =
     (of_int (index - 1) / of_int total_n, of_int index / of_int total_n)"

text \<open>
  One turn of the loop of \<^verbatim>\<open>convert_videos\<close>:
  \<^verbatim>\<open>
  try:
      self.current_file_start_progress = (index - 1) / total
      self.current_file_end_progress = index / total
      self.simulated_progress = self.current_file_start_progress
      self.progress_label.configure(text=f"Converting {index} of {total}...")
      self.start_simulated_progress()
      result = self.convert_single_video(file_path, target_format)
      self.stop_simulated_progress()
      if result:
          self.log_status(f"... {Path(file_path).name} ... {Path(result).name}")
          success_count += 1
          self.progress_bar.set(self.current_file_end_progress)
  except Exception as e:
      self.stop_simulated_progress()
      self.log_status(f"... {Path(file_path).name}: {str(e)}")
      self.progress_bar.set(index / total)
  \<close>
  \<open>fired\<close> are the timer callbacks that the main loop runs while the worker is inside
  \<^verbatim>\<open>convert_single_video\<close>, each taken as one step; they and the conversion touch
  different fields, and the trace lists them first. Inside the loop \<^verbatim>\<open>total\<close> is at
  least 1, so the divisions do not raise; \<^verbatim>\<open>if result\<close> tests that the string is not
  empty.
\<close>

definition convert_job ::
  "string list \<Rightarrow> engine \<Rightarrow> timer_ev list \<Rightarrow> settings \<Rightarrow> string \<Rightarrow> int \<Rightarrow> int \<Rightarrow> string
     \<Rightarrow> int \<times> app \<Rightarrow> (int \<times> app) \<times> event list" where
  "convert_job pool eng fired cfg target_format total_n index file_path acc =
     (let (success_count, s) = acc;
          s1 = s\<lparr>current_file_start_progress := fst (progress_range index total_n),
                 current_file_end_progress := snd (progress_range index total_n)\<rparr>;
          s2 = s1\<lparr>simulated_progress := current_file_start_progress s1\<rparr>;
          e2 = [Label_set (Converting index total_n)];
          (s3, e3) = start_simulated_progress s2;
          (s4, e4) = fire_all pool fired s3;
          (result, e5) = convert_single_video eng cfg file_path target_format
      in case result of
           Inr out \<Rightarrow>
             let s5 = stop_simulated_progress s4
             in if out \<noteq> [] then
                  ((success_count + 1, s5),
                   e2 @ e3 @ e4 @ e5 @
                   [Log (Converted (path_name (Path file_path)) (path_name (Path out))),
                    Progress_set (current_file_end_progress s5)])
                else ((success_count, s5), e2 @ e3 @ e4 @ e5)
         | Inl e \<Rightarrow>
             let s5 = stop_simulated_progress s4
             in ((success_count, s5),
                 e2 @ e3 @ e4 @ e5 @
                 [Log (Failed (path_name (Path file_path)) e),
                  Progress_set (of_int index / of_int total_n)]))"

text \<open>\<^verbatim>\<open>enumerate(xs, start)\<close>.\<close>

fun py_enumerate :: "'a list \<Rightarrow> int \<Rightarrow> (int \<times> 'a) list" where
  "py_enumerate [] start = []"
| "py_enumerate (x # xs) start = (start, x) # py_enumerate xs (start + 1)"

text \<open>
  \<^verbatim>\<open>for index, file_path in enumerate(self.selected_files, 1)\<close>. Job \<open>index\<close> meets the
  engine \<open>eng index\<close> and the timer callbacks \<open>fired index\<close>.
\<close>

fun convert_loop ::
  "string list \<Rightarrow> (int \<Rightarrow> engine) \<Rightarrow> (int \<Rightarrow> timer_ev list) \<Rightarrow> settings \<Rightarrow> string \<Rightarrow> int
     \<Rightarrow> (int \<times> string) list \<Rightarrow> int \<times> app \<Rightarrow> (int \<times> app) \<times> event list" where
  "convert_loop pool eng fired cfg target_format total_n [] acc = (acc, [])"
| "convert_loop pool eng fired cfg target_format total_n ((index, file_path) # rest) acc =
     (let (acc1, e1) =
            convert_job pool (eng index) (fired index) cfg target_format total_n index file_path acc;
          (acc2, e2) = convert_loop pool eng fired cfg target_format total_n rest acc1
      in (acc2, e1 @ e2))"

text \<open>
  \<^verbatim>\<open>
  def convert_videos(self):
      target_format = self.format_var.get()
      success_count = 0
      total = len(self.selected_files)
      self.progress_bar.set(0)
      self.simulated_progress = 0.0
      self.used_messages = []
      self.start_funny_messages()
      self.log_status(f"Starting conversion to {target_format}...\n")
      self.log_status("=" * 60)
      for index, file_path in enumerate(self.selected_files, 1):
          ...
      self.stop_funny_messages()
      self.progress_bar.set(1.0)
      self.progress_label.configure(text="... Complete!")
      self.log_status("=" * 60)
      self.log_status(f"... Conversion complete: {success_count}/{total} successful")
      if success_count > 0:
          messagebox.showinfo("Success", ...)
      self.root.after(3000, reset_progress)
  \<close>
  \<open>r0\<close> and \<open>d0\<close> are the random draws of the first status message. An exception of
  \<^verbatim>\<open>start_funny_messages\<close> is outside every \<^verbatim>\<open>try\<close> and ends the method.
\<close>

definition convert_videos ::
  "string list \<Rightarrow> (int \<Rightarrow> engine) \<Rightarrow> (int \<Rightarrow> timer_ev list) \<Rightarrow> nat \<Rightarrow> nat \<Rightarrow> settings \<Rightarrow> app
     \<Rightarrow> exn option \<times> app \<times> event list" where
  "convert_videos pool eng fired r0 d0 cfg s =
     (let target_format = format_var cfg;
          total_n = int (length (selected_files cfg));
          s1 = s\<lparr>simulated_progress := 0\<rparr>;
          s2 = s1\<lparr>used_messages := []\<rparr>
      in case start_funny_messages pool r0 d0 s2 of
           (Some e, s3, e3) \<Rightarrow> (Some e, s3, Progress_set 0 # e3)
         | (None, s3, e3) \<Rightarrow>
             let ((success_count, s4), e4) =
                   convert_loop pool eng fired cfg target_format total_n
                     (py_enumerate (selected_files cfg) 1) (0, s3);
                 s5 = stop_funny_messages s4
             in (None, s5,
                 Progress_set 0 # e3 @ [Log (Starting target_format), Log Rule] @ e4 @
                 [Progress_set 1, Label_set Complete, Log Rule,
                  Log (Summary success_count total_n)] @
                 (if success_count > 0 then [Showinfo success_count total_n] else []) @
                 [After 3000 Reset_progress]))"

text \<open>The state that \<^verbatim>\<open>__init__\<close> sets up.\<close>

definition init_app :: app where
  "init_app =
     \<lparr>simulated_progress = 0,
      simulated_progress_running = False,
      current_file_start_progress = 0,
      current_file_end_progress = 0,
      funny_message_running = False,
      used_messages = []\<rparr>"

text \<open>
  The state in which the timer callbacks of job \<open>index\<close> run: the range and the
  simulated value are set, and \<^verbatim>\<open>start_simulated_progress\<close> has set the flag and is
  about to make the first call of \<^verbatim>\<open>animate_simulated_progress\<close> itself.
\<close>

definition job_start :: "app \<Rightarrow> int \<Rightarrow> int \<Rightarrow> app" where
  "job_start s index total_n =
     s\<lparr>current_file_start_progress := fst (progress_range index total_n),
       current_file_end_progress := snd (progress_range index total_n),
       simulated_progress := fst (progress_range index total_n),
       simulated_progress_running := True\<rparr>"

text \<open>Whether a job converts its file: \<^verbatim>\<open>convert_single_video\<close> returns.\<close>

definition converts :: "engine \<Rightarrow> settings \<Rightarrow> string \<Rightarrow> string \<Rightarrow> bool" where
  "converts eng cfg file_path target_format =
     (case fst (convert_single_video eng cfg file_path target_format) of
        Inl e \<Rightarrow> False
      | Inr out \<Rightarrow> True)"

subsection \<open>Example inputs\<close>

definition example_clip :: clip where
  "example_clip = \<lparr>reader = 7, clip_w = 801, clip_h = 601\<rparr>"

definition example_engine :: engine where
  "example_engine =
     \<lparr>mkdir_raises = (\<lambda>d. False),
      VideoFileClip = (\<lambda>p. Some example_clip),
      resize_raises = (\<lambda>c tw th. False),
      write_gif_raises = (\<lambda>c p fps. False),
      write_videofile_raises = (\<lambda>c p codec audio. False)\<rparr>"

definition failing_engine :: engine where
  "failing_engine = example_engine\<lparr>write_videofile_raises := (\<lambda>c p codec audio. True)\<rparr>"

definition example_engines :: "int \<Rightarrow> engine" where
  "example_engines i = (if i = 2 then failing_engine else example_engine)"

definition example_settings :: settings where
  "example_settings =
     \<lparr>selected_files = [''/a/b/clip.MOV''],
      output_folder = None,
      format_var = ''GIF'',
      fps_var = 15,
      scale_var = 1 / 2,
      max_width_var = 350,
      full_width_var = False\<rparr>"

definition example_batch :: settings where
  "example_batch =
     \<lparr>selected_files = [''/v/one.mov'', ''/v/two.mov'', ''/v/three.mov''],
      output_folder = None,
      format_var = ''MP4'',
      fps_var = 15,
      scale_var = 1,
      max_width_var = 700,
      full_width_var = False\<rparr>"

definition example_pool :: "string list" where
  "example_pool =
     [''m00'', ''m01'', ''m02'', ''m03'', ''m04'', ''m05'', ''m06'', ''m07'', ''m08'', ''m09'', ''m10'']"

subsection \<open>Reading a trace\<close>

fun progress_values :: "event list \<Rightarrow> real list" where
  "progress_values [] = []"
| "progress_values (Progress_set v # es) = v # progress_values es"
| "progress_values (e # es) = progress_values es"

fun labels :: "event list \<Rightarrow> label list" where
  "labels [] = []"
| "labels (Label_set l # es) = l # labels es"
| "labels (e # es) = labels es"

fun summaries :: "event list \<Rightarrow> (int \<times> int) list" where
  "summaries [] = []"
| "summaries (Log (Summary a b) # es) = (a, b) # summaries es"
| "summaries (e # es) = summaries es"

fun mkdirs :: "event list \<Rightarrow> string list" where
  "mkdirs [] = []"
| "mkdirs (Mkdir d # es) = d # mkdirs es"
| "mkdirs (e # es) = mkdirs es"

fun closes :: "event list \<Rightarrow> clip list" where
  "closes [] = []"
| "closes (Close c # es) = c # closes es"
| "closes (e # es) = closes es"

fun video_writes :: "event list \<Rightarrow> (string \<times> string) list" where
  "video_writes [] = []"
| "video_writes (Write_videofile c p codec audio # es) = (codec, audio) # video_writes es"
| "video_writes (e # es) = video_writes es"

fun write_paths :: "event list \<Rightarrow> string list" where
  "write_paths [] = []"
| "write_paths (Write_videofile c p codec audio # es) = p # write_paths es"
| "write_paths (Write_gif c p fps # es) = p # write_paths es"
| "write_paths (e # es) = write_paths es"

fun is_engine_call :: "event \<Rightarrow> bool" where
  "is_engine_call (Open_clip p) = True"
| "is_engine_call (Resize c a b) = True"
| "is_engine_call (Write_gif c p f) = True"
| "is_engine_call (Write_videofile c p v a) = True"
| "is_engine_call (Close c) = True"
| "is_engine_call e = False"

subsection \<open>Normalisation is even and at least two\<close>

lemma normalize_dimension_ge_2: "2 \<le> normalize_dimension x"
  by (simp add: normalize_dimension_def Let_def)

lemma normalize_dimension_even: "even (normalize_dimension x)"
  unfolding normalize_dimension_def Let_def max_def by presburger

subsection \<open>Traces of the timers\<close>

lemma progress_values_append: "progress_values (a @ b) = progress_values a @ progress_values b"
  by (induction a rule: progress_values.induct) simp_all

lemma labels_append: "labels (a @ b) = labels a @ labels b"
  by (induction a rule: labels.induct) simp_all

lemma summaries_append: "summaries (a @ b) = summaries a @ summaries b"
  by (induction a rule: summaries.induct) simp_all

lemma mkdirs_append: "mkdirs (a @ b) = mkdirs a @ mkdirs b"
  by (induction a rule: mkdirs.induct) simp_all

lemma closes_append: "closes (a @ b) = closes a @ closes b"
  by (induction a rule: closes.induct) simp_all

lemma animate_cases:
  "animate_simulated_progress s = (s', evs) \<Longrightarrow>
     current_file_start_progress s' = current_file_start_progress s \<and>
     current_file_end_progress s' = current_file_end_progress s \<and>
     simulated_progress_running s' = simulated_progress_running s \<and>
     funny_message_running s' = funny_message_running s \<and>
     used_messages s' = used_messages s \<and>
     labels evs = [] \<and> summaries evs = [] \<and> mkdirs evs = [] \<and> closes evs = [] \<and>
     (progress_values evs = [] \<and> simulated_progress s' = simulated_progress s \<or>
      simulated_progress_running s \<and> simulated_progress s < max_progress s \<and>
      progress_values evs = [simulated_progress s'] \<and>
      simulated_progress s' =
        min (simulated_progress s
              + (current_file_end_progress s - current_file_start_progress s) * (2 / 100))
            (max_progress s))"
  by (auto simp: animate_simulated_progress_def Let_def max_progress_def split: if_splits)

lemma get_random_message_frame:
  "get_random_message pool r s = (res, s') \<Longrightarrow>
     current_file_start_progress s' = current_file_start_progress s \<and>
     current_file_end_progress s' = current_file_end_progress s \<and>
     simulated_progress_running s' = simulated_progress_running s \<and>
     simulated_progress s' = simulated_progress s \<and>
     funny_message_running s' = funny_message_running s"
  by (auto simp: get_random_message_def Let_def split: if_splits sum.splits)

lemma show_funny_message_frame:
  "show_funny_message pool r d s = (res, s', evs) \<Longrightarrow>
     current_file_start_progress s' = current_file_start_progress s \<and>
     current_file_end_progress s' = current_file_end_progress s \<and>
     simulated_progress_running s' = simulated_progress_running s \<and>
     simulated_progress s' = simulated_progress s \<and>
     funny_message_running s' = funny_message_running s \<and>
     progress_values evs = [] \<and> labels evs = [] \<and> summaries evs = [] \<and>
     mkdirs evs = [] \<and> closes evs = []"
  by (auto simp: show_funny_message_def Let_def split: if_splits sum.splits prod.splits
           dest: get_random_message_frame)


lemma fire_cases:
  "fire pool t s = (s', evs) \<Longrightarrow>
     current_file_start_progress s' = current_file_start_progress s \<and>
     current_file_end_progress s' = current_file_end_progress s \<and>
     simulated_progress_running s' = simulated_progress_running s \<and>
     labels evs = [] \<and> summaries evs = [] \<and> mkdirs evs = [] \<and> closes evs = [] \<and>
     (progress_values evs = [] \<and> simulated_progress s' = simulated_progress s \<or>
      simulated_progress_running s \<and> simulated_progress s < max_progress s \<and>
      progress_values evs = [simulated_progress s'] \<and>
      simulated_progress s' =
        min (simulated_progress s
              + (current_file_end_progress s - current_file_start_progress s) * (2 / 100))
            (max_progress s))"
proof (cases t)
  case Progress_tick
  assume "fire pool t s = (s', evs)"
  with Progress_tick have "animate_simulated_progress s = (s', evs)" by simp
  from animate_cases [OF this] show ?thesis by blast
next
  case (Message_tick r d)
  assume "fire pool t s = (s', evs)"
  with Message_tick obtain res where "show_funny_message pool r d s = (res, s', evs)"
    by (cases "show_funny_message pool r d s") auto
  from show_funny_message_frame [OF this] show ?thesis by blast
qed

lemma fire_all_frame:
  "fire_all pool ts s = (s', evs) \<Longrightarrow>
     current_file_start_progress s' = current_file_start_progress s \<and>
     current_file_end_progress s' = current_file_end_progress s \<and>
     simulated_progress_running s' = simulated_progress_running s \<and>
     labels evs = [] \<and> summaries evs = [] \<and> mkdirs evs = [] \<and> closes evs = []"
proof (induction ts arbitrary: s s' evs)
  case Nil
  then show ?case by simp
next
  case (Cons t ts)
  obtain s1 e1 where f: "fire pool t s = (s1, e1)" by (cases "fire pool t s")
  obtain s2 e2 where g: "fire_all pool ts s1 = (s2, e2)" by (cases "fire_all pool ts s1")
  from Cons.prems f g have eq: "s' = s2" "evs = e1 @ e2" by simp_all
  from fire_cases [OF f] Cons.IH [OF g] eq show ?case
    by (simp add: labels_append summaries_append mkdirs_append closes_append)
qed

lemma fire_all_progress:
  assumes "current_file_start_progress s \<le> current_file_end_progress s"
    and "fire_all pool ts s = (s', evs)"
  shows "sorted (simulated_progress s # progress_values evs) \<and>
         (\<forall>v \<in> set (progress_values evs). v \<le> max_progress s)"
  using assms
proof (induction ts arbitrary: s s' evs)
  case Nil
  then show ?case by simp
next
  case (Cons t ts)
  obtain s1 e1 where f: "fire pool t s = (s1, e1)" by (cases "fire pool t s")
  obtain s2 e2 where g: "fire_all pool ts s1 = (s2, e2)" by (cases "fire_all pool ts s1")
  from Cons.prems f g have eq: "evs = e1 @ e2" by simp
  note c = fire_cases [OF f]
  from c Cons.prems(1)
  have range1: "current_file_start_progress s1 \<le> current_file_end_progress s1" by simp
  from c have mp: "max_progress s1 = max_progress s" by (simp add: max_progress_def)
  from Cons.IH [OF range1 g] mp
  have ih: "sorted (simulated_progress s1 # progress_values e2)"
    "\<forall>v \<in> set (progress_values e2). v \<le> max_progress s" by simp_all
  from c have mono: "simulated_progress s \<le> simulated_progress s1"
    using Cons.prems(1) by (auto simp: min_def)
  from c have e1: "progress_values e1 = [] \<or>
      progress_values e1 = [simulated_progress s1] \<and> simulated_progress s1 \<le> max_progress s"
    by auto
  from e1 ih mono show ?case
    unfolding eq progress_values_append by auto
qed

subsection \<open>Traces of one conversion\<close>

lemma split_sep_nonempty: "split_sep c s \<noteq> []"
  by (induction s) (auto split: list.splits)

lemma Path_parts_nonempty: "[] \<notin> set (path_parts (Path s))"
  by (simp add: Path_def)

lemma path_parent_parts_nonempty:
  "[] \<notin> set (path_parts p) \<Longrightarrow> [] \<notin> set (path_parts (path_parent p))"
  by (auto simp: path_parent_def dest: in_set_butlastD)

lemma output_dir_of_parts_nonempty: "[] \<notin> set (path_parts (output_dir_of cfg (Path s)))"
  by (auto simp: output_dir_of_def Path_parts_nonempty path_parent_parts_nonempty
           split: option.splits)

lemma joinpath_parts_nonempty:
  "[] \<notin> set (path_parts p) \<Longrightarrow> [] \<notin> set (path_parts (joinpath p s))"
  using Path_parts_nonempty [of s] by (auto simp: joinpath_def Let_def)

lemma join_sep_nonempty: "ps \<noteq> [] \<Longrightarrow> [] \<notin> set ps \<Longrightarrow> join_sep s ps \<noteq> []"
  by (induction s ps rule: join_sep.induct) auto

lemma str_path_nonempty: "[] \<notin> set (path_parts p) \<Longrightarrow> str_path p \<noteq> []"
  by (auto simp: str_path_def join_sep_nonempty)

lemma resize_cases:
  "resize eng c tw th = (err, c', evs) \<Longrightarrow>
     reader c' = reader c \<and> evs = [Resize c tw th] \<and>
     (err = None \<longrightarrow> clip_w c' = tw \<and> clip_h c' = th) \<and>
     (err \<noteq> None \<longrightarrow> c' = c)"
  by (auto simp: resize_def split: if_splits)

lemma gif_global_scale_cases:
  "gif_global_scale eng cfg c = (err, c', evs) \<Longrightarrow>
     reader c' = reader c \<and> (evs = [] \<or> (\<exists>tw th. evs = [Resize c tw th]))"
  by (auto simp: gif_global_scale_def Let_def split: if_splits dest: resize_cases)

lemma gif_max_width_cap_cases:
  "gif_max_width_cap eng cfg c = (err, c', evs) \<Longrightarrow>
     reader c' = reader c \<and> (evs = [] \<or> (\<exists>tw th. evs = [Resize c tw th]))"
  by (auto simp: gif_max_width_cap_def Let_def split: if_splits dest: resize_cases)



lemma resize_trace_facts:
  "evs = [] \<or> (\<exists>tw th. evs = [Resize c tw th]) \<Longrightarrow>
     progress_values evs = [] \<and> labels evs = [] \<and> summaries evs = [] \<and>
     mkdirs evs = [] \<and> closes evs = []"
  by auto

lemma convert_try_cases:
  assumes "convert_try eng cfg inp fmt out = (err, cl, evs)"
  shows "progress_values evs = [] \<and> labels evs = [] \<and> summaries evs = [] \<and>
     mkdirs evs = [] \<and> closes evs = [] \<and>
     (case VideoFileClip eng inp of
        None \<Rightarrow> cl = None \<and> err = Some UnreadableSource
      | Some c0 \<Rightarrow> (\<exists>c. cl = Some c \<and> reader c = reader c0))"
proof (cases "VideoFileClip eng inp")
  case None
  with assms [symmetric] show ?thesis by (simp add: convert_try_def)
next
  case (Some c0)
  show ?thesis
  proof (cases "fmt = ''GIF''")
    case False
    with assms [symmetric] Some show ?thesis
      by (cases "write_videofile_raises eng c0 out
            (case map_of codec_map fmt of None \<Rightarrow> ''libx264'' | Some c \<Rightarrow> c)
            (if fmt \<in> set [''MP4'', ''MOV'', ''MKV''] then ''aac'' else ''libvorbis'')")
         (simp_all add: convert_try_def Let_def)
  next
    case True
    obtain e1 c1 ev1 where g1: "gif_global_scale eng cfg c0 = (e1, c1, ev1)"
      by (cases "gif_global_scale eng cfg c0")
    obtain e2 c2 ev2 where g2: "gif_max_width_cap eng cfg c1 = (e2, c2, ev2)"
      by (cases "gif_max_width_cap eng cfg c1")
    note f1 = gif_global_scale_cases [OF g1]
    note f2 = gif_max_width_cap_cases [OF g2]
    from f1 have t1: "progress_values ev1 = [] \<and> labels ev1 = [] \<and> summaries ev1 = [] \<and>
        mkdirs ev1 = [] \<and> closes ev1 = []"
      by (intro resize_trace_facts [of _ c0]) simp
    from f2 have t2: "progress_values ev2 = [] \<and> labels ev2 = [] \<and> summaries ev2 = [] \<and>
        mkdirs ev2 = [] \<and> closes ev2 = []"
      by (intro resize_trace_facts [of _ c1]) simp
    from f1 f2 have r: "reader c1 = reader c0" "reader c2 = reader c0" by simp_all
    show ?thesis
    proof (cases e1)
      case (Some e)
      with assms [symmetric] \<open>VideoFileClip eng inp = Some c0\<close> True g1 t1 r show ?thesis
        by (simp add: convert_try_def)
    next
      case None
      note n1 = None
      show ?thesis
      proof (cases e2)
        case (Some e)
        with assms [symmetric] \<open>VideoFileClip eng inp = Some c0\<close> True g1 g2 n1 t1 t2 r show ?thesis
          by (simp add: convert_try_def progress_values_append labels_append
                summaries_append mkdirs_append closes_append)
      next
        case None
        with assms [symmetric] \<open>VideoFileClip eng inp = Some c0\<close> True g1 g2 n1 t1 t2 r show ?thesis
          by (cases "write_gif_raises eng c2 out (fps_var cfg)")
             (simp_all add: convert_try_def Let_def progress_values_append labels_append
                summaries_append mkdirs_append closes_append)
      qed
    qed
  qed
qed

lemma convert_single_video_trace:
  assumes "convert_single_video eng cfg inp fmt = (res, evs)"
  shows "progress_values evs = [] \<and> labels evs = [] \<and> summaries evs = [] \<and>
     mkdirs evs = [str_path (output_dir_of cfg (Path inp))]"
proof (cases "mkdir_raises eng (str_path (output_dir_of cfg (Path inp)))")
  case True
  with assms [symmetric] show ?thesis by (simp add: convert_single_video_def Let_def)
next
  case False
  let ?out = "str_path (joinpath (output_dir_of cfg (Path inp))
                 (path_stem (Path inp) @ ''.'' @ lower fmt))"
  obtain err cl ev where t: "convert_try eng cfg (str_path (Path inp)) fmt ?out = (err, cl, ev)"
    by (cases "convert_try eng cfg (str_path (Path inp)) fmt ?out")
  from convert_try_cases [OF t]
  have tf: "progress_values ev = []" "labels ev = []" "summaries ev = []" "mkdirs ev = []"
    by simp_all
  have evs: "evs = Mkdir (str_path (output_dir_of cfg (Path inp)))
      # Log (Converting_file (path_name (Path inp))) # ev @ (case cl of Some c \<Rightarrow> [Close c] | None \<Rightarrow> [])"
    using assms [symmetric] False t by (simp add: convert_single_video_def Let_def split: option.splits)
  show ?thesis unfolding evs
    using tf by (simp add: progress_values_append labels_append summaries_append mkdirs_append
        split: option.splits)
qed

lemma convert_single_video_result_nonempty:
  "fst (convert_single_video eng cfg inp fmt) = Inr out \<Longrightarrow> out \<noteq> []"
  by (auto simp: convert_single_video_def Let_def str_path_nonempty joinpath_parts_nonempty
        output_dir_of_parts_nonempty split: if_splits prod.splits option.splits)

subsection \<open>Traces of the batch\<close>

lemma convert_job_unfold:
  assumes t: "fire_all pool (Progress_tick # fired) (job_start s i N) = (s4, e34)"
    and c: "convert_single_video eng cfg f fmt = (result, e5)"
  shows "convert_job pool eng fired cfg fmt N i f (sc, s) =
     (case result of
        Inr out \<Rightarrow>
          ((sc + 1, stop_simulated_progress s4),
           Label_set (Converting i N) # e34 @ e5 @
           [Log (Converted (path_name (Path f)) (path_name (Path out))),
            Progress_set (snd (progress_range i N))])
      | Inl e \<Rightarrow>
          ((sc, stop_simulated_progress s4),
           Label_set (Converting i N) # e34 @ e5 @
           [Log (Failed (path_name (Path f)) e), Progress_set (of_int i / of_int N)]))"
proof -
  obtain s3 e3 where a: "animate_simulated_progress (job_start s i N) = (s3, e3)"
    by (cases "animate_simulated_progress (job_start s i N)")
  obtain s4' e4 where b: "fire_all pool fired s3 = (s4', e4)"
    by (cases "fire_all pool fired s3")
  from t a b have eq: "s4 = s4'" "e34 = e3 @ e4" by simp_all
  have st: "start_simulated_progress
      (s\<lparr>current_file_start_progress := fst (progress_range i N),
         current_file_end_progress := snd (progress_range i N),
         simulated_progress := fst (progress_range i N)\<rparr>) = (s3, e3)"
    using a by (simp add: start_simulated_progress_def job_start_def)
  from fire_all_frame [OF t]
  have e4: "current_file_end_progress s4 = snd (progress_range i N)"
    by (simp add: job_start_def)
  have ne: "\<And>out. result = Inr out \<Longrightarrow> out \<noteq> []"
    using convert_single_video_result_nonempty [of eng cfg f fmt] c by simp
  show ?thesis
  proof (cases result)
    case (Inl e)
    then show ?thesis
      using st b c eq by (simp add: convert_job_def Let_def)
  next
    case (Inr out)
    then show ?thesis
      using st b c eq e4 ne [OF Inr]
      by (simp add: convert_job_def Let_def stop_simulated_progress_def)
  qed
qed

lemma convert_job_trace:
  assumes j: "convert_job pool eng fired cfg fmt N i f (sc, s) = ((sc', s'), evs)"
  shows "labels evs = [Converting i N] \<and>
         mkdirs evs = [str_path (output_dir_of cfg (Path f))] \<and>
         summaries evs = [] \<and>
         sc' = (if converts eng cfg f fmt then sc + 1 else sc) \<and>
         progress_values evs =
           progress_values (snd (fire_all pool (Progress_tick # fired) (job_start s i N)))
             @ [snd (progress_range i N)]"
proof -
  obtain s4 e34 where t: "fire_all pool (Progress_tick # fired) (job_start s i N) = (s4, e34)"
    by (cases "fire_all pool (Progress_tick # fired) (job_start s i N)")
  obtain result e5 where c: "convert_single_video eng cfg f fmt = (result, e5)"
    by (cases "convert_single_video eng cfg f fmt")
  note u = convert_job_unfold [OF t c, of sc]
  note tf = fire_all_frame [OF t]
  note cf = convert_single_video_trace [OF c]
  have r: "snd (progress_range i N) = of_int i / of_int N" by (simp add: progress_range_def)
  show ?thesis
  proof (cases result)
    case (Inl e)
    with u j [symmetric] tf cf t c r show ?thesis
      by (simp add: labels_append mkdirs_append summaries_append progress_values_append
            converts_def)
  next
    case (Inr out)
    with u j [symmetric] tf cf t c show ?thesis
      by (simp add: labels_append mkdirs_append summaries_append progress_values_append
            converts_def)
  qed
qed

lemma convert_job_range:
  "current_file_start_progress (snd (fst (convert_job pool eng fired cfg fmt N i f acc)))
     = fst (progress_range i N) \<and>
   current_file_end_progress (snd (fst (convert_job pool eng fired cfg fmt N i f acc)))
     = snd (progress_range i N)"
proof -
  obtain sc s where acc: "acc = (sc, s)" by (cases acc)
  obtain s4 e34 where t: "fire_all pool (Progress_tick # fired) (job_start s i N) = (s4, e34)"
    by (cases "fire_all pool (Progress_tick # fired) (job_start s i N)")
  obtain result e5 where c: "convert_single_video eng cfg f fmt = (result, e5)"
    by (cases "convert_single_video eng cfg f fmt")
  from fire_all_frame [OF t]
  have r: "current_file_start_progress s4 = fst (progress_range i N)"
    "current_file_end_progress s4 = snd (progress_range i N)"
    by (simp_all add: job_start_def)
  show ?thesis
    unfolding acc convert_job_unfold [OF t c, of sc]
    using r by (cases result) (simp_all add: stop_simulated_progress_def)
qed

lemma convert_loop_trace:
  assumes "convert_loop pool eng fired cfg fmt N jobs (sc, s) = ((sc', s'), evs)"
  shows "labels evs = map (\<lambda>(i, f). Converting i N) jobs \<and>
         mkdirs evs = map (\<lambda>(i, f). str_path (output_dir_of cfg (Path f))) jobs \<and>
         summaries evs = [] \<and>
         sc' = sc + int (length (filter (\<lambda>(i, f). converts (eng i) cfg f fmt) jobs))"
  using assms
proof (induction jobs arbitrary: sc s sc' s' evs)
  case Nil
  then show ?case by simp
next
  case (Cons job jobs)
  obtain i f where job: "job = (i, f)" by (cases job)
  obtain sc1 s1 e1 where
    a: "convert_job pool (eng i) (fired i) cfg fmt N i f (sc, s) = ((sc1, s1), e1)"
    by (cases "convert_job pool (eng i) (fired i) cfg fmt N i f (sc, s)") auto
  obtain sc2 s2 e2 where
    b: "convert_loop pool eng fired cfg fmt N jobs (sc1, s1) = ((sc2, s2), e2)"
    by (cases "convert_loop pool eng fired cfg fmt N jobs (sc1, s1)") auto
  from Cons.prems job a b have eq: "sc' = sc2" "evs = e1 @ e2" by simp_all
  from convert_job_trace [OF a] Cons.IH [OF b] show ?case
    unfolding eq job
    by (simp add: labels_append mkdirs_append summaries_append)
qed

lemma start_funny_messages_ok:
  assumes "pool \<noteq> []" and "used_messages s = []"
  shows "\<exists>s' evs. start_funny_messages pool r d s = (None, s', evs) \<and>
           progress_values evs = [] \<and> labels evs = [] \<and> summaries evs = [] \<and> mkdirs evs = []"
  using assms
  by (simp add: start_funny_messages_def show_funny_message_def get_random_message_def
        random_choice_def Let_def)

subsection \<open>Normalised dimensions\<close>

text \<open>
  Claim C5. For every real \<open>x\<close>, \<^verbatim>\<open>_normalize_dimension(x)\<close> is an even integer and
  at least 2; the function is total, with no error case.
\<close>

theorem normalize_dimension_even_ge_2:
  "even (normalize_dimension x) \<and> 2 \<le> normalize_dimension x"
  by (simp add: normalize_dimension_even normalize_dimension_ge_2)

lemma normalize_801_601:
  "normalize_dimension (801 * (1 / 2)) = 400 \<and> normalize_dimension (601 * (1 / 2)) = 300 \<and>
   normalize_dimension 350 = 350 \<and> normalize_dimension (300 * (350 / 400)) = 262"
  by (simp add: normalize_dimension_def py_round_def Let_def)

text \<open>
  Claim C6. A GIF conversion of an 801 by 601 clip with scale factor 0.5, maximal width
  350 and the full-width option unset: the global-scale step asks for 400 by 300, and the
  maximal-width step, which runs on the clip already scaled, computes the ratio
  350 / 400 = 0.875 and asks for 350 by 262, the size that is written.
\<close>

theorem gif_801x601_scaled_then_capped:
  assumes "VideoFileClip eng inp = Some c" and "clip_w c = 801" and "clip_h c = 601"
    and "scale_var cfg = 1 / 2" and "max_width_var cfg = 350" and "\<not> full_width_var cfg"
    and "\<forall>c' tw th. \<not> resize_raises eng c' tw th"
  shows "normalize_dimension (801 * (1 / 2)) = 400 \<and>
         normalize_dimension (601 * (1 / 2)) = 300 \<and>
         gif_global_scale eng cfg c
           = (None, c\<lparr>clip_w := 400, clip_h := 300\<rparr>, [Resize c 400 300]) \<and>
         (350 :: real) / 400 = 0.875 \<and>
         normalize_dimension 350 = 350 \<and>
         normalize_dimension (300 * 0.875) = 262 \<and>
         gif_max_width_cap eng cfg (c\<lparr>clip_w := 400, clip_h := 300\<rparr>)
           = (None, c\<lparr>clip_w := 350, clip_h := 262\<rparr>,
              [Resize (c\<lparr>clip_w := 400, clip_h := 300\<rparr>) 350 262]) \<and>
         snd (snd (convert_try eng cfg inp ''GIF'' out))
           = [Open_clip inp,
              Resize c 400 300,
              Resize (c\<lparr>clip_w := 400, clip_h := 300\<rparr>) 350 262,
              Write_gif (c\<lparr>clip_w := 350, clip_h := 262\<rparr>) out (fps_var cfg)]"
proof -
  note n = normalize_801_601
  have w1: "normalize_dimension (of_int (clip_w c) * scale_var cfg) = 400"
    and h1: "normalize_dimension (of_int (clip_h c) * scale_var cfg) = 300"
    unfolding assms(2,3,4) using n by simp_all
  have lt: "scale_var cfg < 1" unfolding assms(4) by simp
  have g1: "gif_global_scale eng cfg c
      = (None, c\<lparr>clip_w := 400, clip_h := 300\<rparr>, [Resize c 400 300])"
    unfolding gif_global_scale_def Let_def resize_def w1 h1 using lt assms(7) by simp
  let ?c1 = "c\<lparr>clip_w := 400, clip_h := 300\<rparr>"
  have w2: "normalize_dimension (of_int (max_width_var cfg)) = 350"
    and h2: "normalize_dimension
        (of_int (clip_h ?c1) * (of_int (max_width_var cfg) / of_int (clip_w ?c1))) = 262"
    unfolding assms(5) using n by simp_all
  have g2: "gif_max_width_cap eng cfg ?c1
      = (None, c\<lparr>clip_w := 350, clip_h := 262\<rparr>, [Resize ?c1 350 262])"
    unfolding gif_max_width_cap_def Let_def resize_def w2 h2 using assms(5,6,7) by simp
  have t: "snd (snd (convert_try eng cfg inp ''GIF'' out))
      = [Open_clip inp, Resize c 400 300, Resize ?c1 350 262,
         Write_gif (c\<lparr>clip_w := 350, clip_h := 262\<rparr>) out (fps_var cfg)]"
    using assms(1) g1 g2 by (simp add: convert_try_def Let_def)
  have r: "(350 :: real) / 400 = 0.875" by simp
  have n': "normalize_dimension (300 * 0.875) = 262" using n by simp
  from n n' g1 g2 t r show ?thesis by simp
qed

theorem gif_801x601_scaled_then_capped_witness:
  "snd (snd (convert_try example_engine example_settings ''/a/b/clip.MOV'' ''GIF''
               ''/a/b/clip.gif''))
     = [Open_clip ''/a/b/clip.MOV'',
        Resize \<lparr>reader = 7, clip_w = 801, clip_h = 601\<rparr> 400 300,
        Resize \<lparr>reader = 7, clip_w = 400, clip_h = 300\<rparr> 350 262,
        Write_gif \<lparr>reader = 7, clip_w = 350, clip_h = 262\<rparr> ''/a/b/clip.gif'' 15]"
  using gif_801x601_scaled_then_capped [of example_engine "''/a/b/clip.MOV''"
      example_clip example_settings "''/a/b/clip.gif''"]
  by (simp add: example_engine_def example_settings_def example_clip_def)

subsection \<open>Progress ranges\<close>

lemma progress_range_cover:
  assumes "1 \<le> N" and "0 \<le> x" and "x < 1"
  shows "\<exists>!i. 1 \<le> i \<and> i \<le> N \<and> fst (progress_range i N) \<le> x \<and> x < snd (progress_range i N)"
proof -
  from assms(1) have Npos: "0 < (of_int N :: real)" by simp
  let ?k = "\<lfloor>x * of_int N\<rfloor>"
  have k0: "0 \<le> ?k" using assms(2) Npos by simp
  have "x * of_int N < of_int N" using assms(3) Npos by simp
  then have kN: "?k < N" by (simp add: floor_less_iff)
  have lo: "of_int ?k \<le> x * of_int N" by simp
  have hi: "x * of_int N < of_int (?k + 1)" by linarith
  have in_range: "fst (progress_range (?k + 1) N) \<le> x \<and> x < snd (progress_range (?k + 1) N)"
    using lo hi Npos by (simp add: progress_range_def field_simps)
  show ?thesis
  proof (rule ex1I [of _ "?k + 1"])
    show "1 \<le> ?k + 1 \<and> ?k + 1 \<le> N \<and> fst (progress_range (?k + 1) N) \<le> x
        \<and> x < snd (progress_range (?k + 1) N)"
      using k0 kN in_range by simp
  next
    fix i
    assume a: "1 \<le> i \<and> i \<le> N \<and> fst (progress_range i N) \<le> x \<and> x < snd (progress_range i N)"
    then have "of_int (i - 1) \<le> x * of_int N" and "x * of_int N < of_int i"
      using Npos by (simp_all add: progress_range_def field_simps)
    then have "?k = i - 1" by (intro floor_unique) simp_all
    then show "i = ?k + 1" by simp
  qed
qed

text \<open>
  Claim C2. For a batch of \<open>N \<ge> 1\<close> jobs, the range of job \<open>i\<close> (counted from 1) is
  \<open>((i - 1) / N, i / N)\<close>; each range ends where the next one starts, the first starts at
  0, the last ends at 1, and every point of \<open>[0, 1)\<close> lies in exactly one range
  \<open>[start, end)\<close>: no gap and no overlap. These are the values that the loop of
  \<^verbatim>\<open>convert_videos\<close> stores for job \<open>i\<close>.
\<close>

theorem progress_ranges_partition:
  assumes "1 \<le> N"
  shows "(\<forall>i. 1 \<le> i \<and> i \<le> N \<longrightarrow>
            progress_range i N = (of_int (i - 1) / of_int N, of_int i / of_int N) \<and>
            fst (progress_range i N) < snd (progress_range i N)) \<and>
         (\<forall>i. 1 \<le> i \<and> i < N \<longrightarrow> snd (progress_range i N) = fst (progress_range (i + 1) N)) \<and>
         fst (progress_range 1 N) = 0 \<and>
         snd (progress_range N N) = 1 \<and>
         (\<forall>x. 0 \<le> x \<and> x < 1 \<longrightarrow>
            (\<exists>!i. 1 \<le> i \<and> i \<le> N \<and>
                   fst (progress_range i N) \<le> x \<and> x < snd (progress_range i N))) \<and>
         (\<forall>i. 1 \<le> i \<and> i \<le> N \<longrightarrow>
            current_file_start_progress
              (snd (fst (convert_job pool eng fired cfg fmt N i f acc)))
              = of_int (i - 1) / of_int N \<and>
            current_file_end_progress
              (snd (fst (convert_job pool eng fired cfg fmt N i f acc)))
              = of_int i / of_int N)"
proof -
  from assms have Npos: "0 < (of_int N :: real)" by simp
  have j: "\<forall>i. 1 \<le> i \<and> i \<le> N \<longrightarrow>
            current_file_start_progress
              (snd (fst (convert_job pool eng fired cfg fmt N i f acc)))
              = of_int (i - 1) / of_int N \<and>
            current_file_end_progress
              (snd (fst (convert_job pool eng fired cfg fmt N i f acc)))
              = of_int i / of_int N"
    by (simp add: convert_job_range) (simp add: progress_range_def)
  have a: "\<forall>i. 1 \<le> i \<and> i \<le> N \<longrightarrow>
            progress_range i N = (of_int (i - 1) / of_int N, of_int i / of_int N) \<and>
            fst (progress_range i N) < snd (progress_range i N)"
    using Npos by (simp add: progress_range_def divide_strict_right_mono)
  have b: "\<forall>i. 1 \<le> i \<and> i < N \<longrightarrow> snd (progress_range i N) = fst (progress_range (i + 1) N)"
    by (simp add: progress_range_def)
  have c: "fst (progress_range 1 N) = 0" by (simp add: progress_range_def)
  have d: "snd (progress_range N N) = 1" using Npos by (simp add: progress_range_def)
  have e: "\<forall>x. 0 \<le> x \<and> x < 1 \<longrightarrow>
            (\<exists>!i. 1 \<le> i \<and> i \<le> N \<and>
                   fst (progress_range i N) \<le> x \<and> x < snd (progress_range i N))"
    using progress_range_cover [OF assms] by blast
  from a b c d e j show ?thesis by blast
qed

theorem progress_ranges_partition_witness:
  "(1 :: int) \<le> 3 \<and>
   progress_range 1 3 = (0, 1 / 3) \<and> progress_range 2 3 = (1 / 3, 2 / 3) \<and>
   progress_range 3 3 = (2 / 3, 1) \<and>
   snd (progress_range 1 3) = fst (progress_range 2 3) \<and>
   snd (progress_range 2 3) = fst (progress_range 3 3) \<and>
   snd (progress_range 3 3) = 1"
  using progress_ranges_partition [where N = 3] by (simp add: progress_range_def)

subsection \<open>The batch goes on after a failure\<close>

lemma py_enumerate_labels:
  "map (\<lambda>(i, f). Converting i N) (py_enumerate fs k)
     = map (\<lambda>i. Converting i N) [k .. k + int (length fs) - 1]"
proof (induction fs arbitrary: k)
  case Nil
  then show ?case by simp
next
  case (Cons f fs)
  have "[k .. k + int (length (f # fs)) - 1] = k # [k + 1 .. k + 1 + int (length fs) - 1]"
    by (simp add: upto_rec1)
  with Cons.IH [of "k + 1"] show ?case by simp
qed

lemma py_enumerate_files: "map (\<lambda>(i, f). g f) (py_enumerate fs k) = map g fs"
  by (induction fs arbitrary: k) simp_all

text \<open>
  Claim C1. In a batch of \<open>N \<ge> 1\<close> jobs, whatever jobs fail, \<^verbatim>\<open>convert_videos\<close> ends
  without an exception, announces and enters every job in order (the labels
  \<open>Converting i N\<close> for \<open>i = 1 .. N\<close>, one \<^verbatim>\<open>mkdir\<close> per file), and its one summary line
  reports the number of jobs whose conversion returned and the total \<open>N\<close>. For three jobs
  of which exactly the second fails, the summary is 2 of 3.
\<close>

theorem batch_continues_after_failure:
  assumes "pool \<noteq> []" and "selected_files cfg \<noteq> []"
  shows "fst (convert_videos pool eng fired r0 d0 cfg s) = None \<and>
         labels (snd (snd (convert_videos pool eng fired r0 d0 cfg s))) =
           map (\<lambda>i. Converting i (int (length (selected_files cfg))))
             [1 .. int (length (selected_files cfg))] @ [Complete] \<and>
         mkdirs (snd (snd (convert_videos pool eng fired r0 d0 cfg s))) =
           map (\<lambda>f. str_path (output_dir_of cfg (Path f))) (selected_files cfg) \<and>
         summaries (snd (snd (convert_videos pool eng fired r0 d0 cfg s))) =
           [(int (length (filter (\<lambda>(i, f). converts (eng i) cfg f (format_var cfg))
                            (py_enumerate (selected_files cfg) 1))),
             int (length (selected_files cfg)))] \<and>
         (length (selected_files cfg) = 3 \<and>
          converts (eng 1) cfg (selected_files cfg ! 0) (format_var cfg) \<and>
          \<not> converts (eng 2) cfg (selected_files cfg ! 1) (format_var cfg) \<and>
          converts (eng 3) cfg (selected_files cfg ! 2) (format_var cfg) \<longrightarrow>
          summaries (snd (snd (convert_videos pool eng fired r0 d0 cfg s))) = [(2, 3)])"
proof -
  let ?N = "int (length (selected_files cfg))"
  let ?s2 = "s\<lparr>simulated_progress := 0, used_messages := []\<rparr>"
  from start_funny_messages_ok [OF assms(1), of ?s2 r0 d0]
  obtain s3 e3 where
    f: "start_funny_messages pool r0 d0 ?s2 = (None, s3, e3)"
    and e3: "progress_values e3 = []" "labels e3 = []" "summaries e3 = []" "mkdirs e3 = []"
    by auto
  obtain sc4 s4 e4 where
    l: "convert_loop pool eng fired cfg (format_var cfg) ?N
          (py_enumerate (selected_files cfg) 1) (0, s3) = ((sc4, s4), e4)"
    by (cases "convert_loop pool eng fired cfg (format_var cfg) ?N
          (py_enumerate (selected_files cfg) 1) (0, s3)") auto
  note lt = convert_loop_trace [OF l]
  have m: "map (\<lambda>(i, f). str_path (output_dir_of cfg (Path f)))
             (py_enumerate (selected_files cfg) 1)
           = map (\<lambda>f. str_path (output_dir_of cfg (Path f))) (selected_files cfg)"
    by (rule py_enumerate_files)
  have cv: "convert_videos pool eng fired r0 d0 cfg s =
      (None, stop_funny_messages s4,
       Progress_set 0 # e3 @ [Log (Starting (format_var cfg)), Log Rule] @ e4 @
         [Progress_set 1, Label_set Complete, Log Rule, Log (Summary sc4 ?N)] @
         (if sc4 > 0 then [Showinfo sc4 ?N] else []) @ [After 3000 Reset_progress])"
    using f l by (simp add: convert_videos_def Let_def)
  have general: "fst (convert_videos pool eng fired r0 d0 cfg s) = None \<and>
         labels (snd (snd (convert_videos pool eng fired r0 d0 cfg s))) =
           map (\<lambda>i. Converting i ?N) [1 .. ?N] @ [Complete] \<and>
         mkdirs (snd (snd (convert_videos pool eng fired r0 d0 cfg s))) =
           map (\<lambda>f. str_path (output_dir_of cfg (Path f))) (selected_files cfg) \<and>
         summaries (snd (snd (convert_videos pool eng fired r0 d0 cfg s))) =
           [(int (length (filter (\<lambda>(i, f). converts (eng i) cfg f (format_var cfg))
                            (py_enumerate (selected_files cfg) 1))), ?N)]"
    unfolding cv
    using e3 lt m py_enumerate_labels [of ?N "selected_files cfg" 1]
    by (simp add: labels_append mkdirs_append summaries_append)
  have three: "summaries (snd (snd (convert_videos pool eng fired r0 d0 cfg s))) = [(2, 3)]"
    if "length (selected_files cfg) = 3"
      and "converts (eng 1) cfg (selected_files cfg ! 0) (format_var cfg)"
      and "\<not> converts (eng 2) cfg (selected_files cfg ! 1) (format_var cfg)"
      and "converts (eng 3) cfg (selected_files cfg ! 2) (format_var cfg)"
  proof -
    from that(1) obtain a b c where abc: "selected_files cfg = [a, b, c]"
      by (auto simp: length_Suc_conv numeral_3_eq_3)
    from general that(2-4) show ?thesis by (simp add: abc)
  qed
  from general three show ?thesis by blast
qed

lemma example_batch_converts:
  "converts (example_engines 1) example_batch ''/v/one.mov'' ''MP4'' \<and>
   \<not> converts (example_engines 2) example_batch ''/v/two.mov'' ''MP4'' \<and>
   converts (example_engines 3) example_batch ''/v/three.mov'' ''MP4''"
  by (simp add: converts_def convert_single_video_def convert_try_def example_engines_def
        example_engine_def failing_engine_def Let_def)

theorem batch_continues_after_failure_witness:
  "example_pool \<noteq> [] \<and> selected_files example_batch \<noteq> [] \<and>
   \<not> converts (example_engines 2) example_batch ''/v/two.mov'' ''MP4'' \<and>
   fst (convert_videos example_pool example_engines (\<lambda>i. [Progress_tick]) 3 5
          example_batch init_app) = None \<and>
   labels (snd (snd (convert_videos example_pool example_engines (\<lambda>i. [Progress_tick]) 3 5
          example_batch init_app)))
     = [Converting 1 3, Converting 2 3, Converting 3 3, Complete] \<and>
   summaries (snd (snd (convert_videos example_pool example_engines (\<lambda>i. [Progress_tick]) 3 5
          example_batch init_app)))
     = [(2, 3)]"
proof -
  have p: "example_pool \<noteq> []" by (simp add: example_pool_def)
  have f: "selected_files example_batch \<noteq> []" by (simp add: example_batch_def)
  have u: "[1 .. 3] = [1, 2, 3 :: int]" by (simp add: upto_rec1)
  from batch_continues_after_failure
      [OF p f, of example_engines "\<lambda>i. [Progress_tick]" 3 5 init_app]
  show ?thesis
    using p f example_batch_converts u by (simp add: example_batch_def)
qed

subsection \<open>Status messages do not repeat\<close>










subsection \<open>Simulated progress\<close>

lemma progress_range_le: "0 < N \<Longrightarrow> fst (progress_range i N) \<le> snd (progress_range i N)"
  by (simp add: progress_range_def divide_right_mono)

text \<open>
  Claim C3. While job \<open>i\<close> of \<open>N\<close> runs, the values that the timer publishes start from
  the start of the job's range, never decrease and never pass
  \<open>start + 0.9 * (end - start)\<close>; whatever callbacks fired, and whether the conversion
  returned or raised, the next value published is the end of the range. The bound also
  holds for a single call of \<^verbatim>\<open>animate_simulated_progress\<close> in any state.
\<close>

theorem simulated_progress_bounded_then_snapped:
  assumes "0 < N"
  shows "progress_values (snd (convert_job pool eng fired cfg fmt N i f (sc, s)))
           = progress_values (snd (fire_all pool (Progress_tick # fired) (job_start s i N)))
               @ [snd (progress_range i N)] \<and>
         sorted (fst (progress_range i N)
                   # progress_values (snd (fire_all pool (Progress_tick # fired) (job_start s i N)))) \<and>
         (\<forall>v \<in> set (progress_values (snd (fire_all pool (Progress_tick # fired) (job_start s i N)))).
            v \<le> fst (progress_range i N)
                  + 0.9 * (snd (progress_range i N) - fst (progress_range i N))) \<and>
         (\<forall>v \<in> set (progress_values (snd (animate_simulated_progress t))).
            v \<le> current_file_start_progress t
                  + 0.9 * (current_file_end_progress t - current_file_start_progress t))"
proof -
  obtain sc' s' evs where j: "convert_job pool eng fired cfg fmt N i f (sc, s) = ((sc', s'), evs)"
    by (cases "convert_job pool eng fired cfg fmt N i f (sc, s)") auto
  from convert_job_trace [OF j]
  have a: "progress_values (snd (convert_job pool eng fired cfg fmt N i f (sc, s)))
           = progress_values (snd (fire_all pool (Progress_tick # fired) (job_start s i N)))
               @ [snd (progress_range i N)]"
    by (simp add: j)
  obtain s4 e34 where t: "fire_all pool (Progress_tick # fired) (job_start s i N) = (s4, e34)"
    by (cases "fire_all pool (Progress_tick # fired) (job_start s i N)")
  have le: "current_file_start_progress (job_start s i N)
      \<le> current_file_end_progress (job_start s i N)"
    using progress_range_le [OF assms, of i] by (simp add: job_start_def)
  have mp: "max_progress (job_start s i N)
      = fst (progress_range i N) + 0.9 * (snd (progress_range i N) - fst (progress_range i N))"
    by (simp add: job_start_def max_progress_def)
  from fire_all_progress [OF le t]
  have b: "sorted (fst (progress_range i N) # progress_values e34)"
    and c: "\<forall>v \<in> set (progress_values e34).
            v \<le> fst (progress_range i N)
                  + 0.9 * (snd (progress_range i N) - fst (progress_range i N))"
    unfolding mp by (simp_all add: job_start_def)
  obtain t' e where an: "animate_simulated_progress t = (t', e)"
    by (cases "animate_simulated_progress t")
  from animate_cases [OF an]
  have d0: "\<forall>v \<in> set (progress_values e). v \<le> max_progress t" by auto
  have mpt: "max_progress t = current_file_start_progress t
      + 0.9 * (current_file_end_progress t - current_file_start_progress t)"
    by (simp add: max_progress_def)
  have d: "\<forall>v \<in> set (progress_values (snd (animate_simulated_progress t))).
            v \<le> current_file_start_progress t
                  + 0.9 * (current_file_end_progress t - current_file_start_progress t)"
    unfolding an using d0 unfolding mpt by simp
  from a b c d show ?thesis unfolding t by simp
qed

lemma example_ticks:
  "progress_values (snd (fire_all example_pool
       [Progress_tick, Progress_tick, Message_tick 0 0, Progress_tick] (job_start init_app 1 2)))
     = [1 / 100, 2 / 100, 3 / 100]"
  by (simp add: animate_simulated_progress_def show_funny_message_def max_progress_def
        progress_range_def job_start_def init_app_def Let_def)

theorem simulated_progress_bounded_then_snapped_witness:
  "(0 :: int) < 2 \<and>
   progress_values (snd (convert_job example_pool example_engine
       [Progress_tick, Message_tick 0 0, Progress_tick] example_batch ''MP4'' 2 1 ''/v/one.mov''
       (0, init_app)))
     = [1 / 100, 2 / 100, 3 / 100, 1 / 2] \<and>
   fst (progress_range 1 2) + 0.9 * (snd (progress_range 1 2) - fst (progress_range 1 2))
     = 45 / 100"
proof -
  have n: "(0 :: int) < 2" by simp
  note t = simulated_progress_bounded_then_snapped [OF n, of example_pool example_engine
      "[Progress_tick, Message_tick 0 0, Progress_tick]" example_batch "''MP4''" 1
      "''/v/one.mov''" 0 init_app init_app, unfolded example_ticks]
  have r: "progress_range 1 2 = (0, 1 / 2)" by (simp add: progress_range_def)
  from t show ?thesis by (simp add: r)
qed

subsection \<open>Stopped timers\<close>





subsection \<open>Output path, clip handle and codecs\<close>

lemma write_paths_append: "write_paths (a @ b) = write_paths a @ write_paths b"
  by (induction a rule: write_paths.induct) simp_all

lemma video_writes_append: "video_writes (a @ b) = video_writes a @ video_writes b"
  by (induction a rule: video_writes.induct) simp_all

lemma resize_no_writes:
  "evs = [] \<or> (\<exists>tw th. evs = [Resize c tw th]) \<Longrightarrow>
     write_paths evs = [] \<and> video_writes evs = [] \<and> filter is_engine_call evs = evs"
  by auto

lemma convert_try_writes:
  assumes "convert_try eng cfg inp fmt out = (err, cl, evs)"
  shows "set (write_paths evs) \<subseteq> {out} \<and> filter is_engine_call evs = evs \<and> evs \<noteq> [] \<and>
         (\<forall>e \<in> set evs. \<forall>d. e \<noteq> Mkdir d) \<and>
         video_writes evs =
           (case VideoFileClip eng inp of
              None \<Rightarrow> []
            | Some c0 \<Rightarrow>
                if fmt = ''GIF'' then []
                else [(case map_of codec_map fmt of Some c \<Rightarrow> c | None \<Rightarrow> ''libx264'',
                       if fmt \<in> set [''MP4'', ''MOV'', ''MKV''] then ''aac''
                       else ''libvorbis'')])"
proof (cases "VideoFileClip eng inp")
  case None
  with assms [symmetric] show ?thesis by (simp add: convert_try_def)
next
  case (Some c0)
  show ?thesis
  proof (cases "fmt = ''GIF''")
    case False
    with assms [symmetric] Some show ?thesis by (simp add: convert_try_def Let_def)
  next
    case True
    obtain e1 c1 ev1 where g1: "gif_global_scale eng cfg c0 = (e1, c1, ev1)"
      by (cases "gif_global_scale eng cfg c0")
    obtain e2 c2 ev2 where g2: "gif_max_width_cap eng cfg c1 = (e2, c2, ev2)"
      by (cases "gif_max_width_cap eng cfg c1")
    from gif_global_scale_cases [OF g1]
    have t1: "write_paths ev1 = [] \<and> video_writes ev1 = [] \<and> filter is_engine_call ev1 = ev1"
      by (intro resize_no_writes [of _ c0]) simp
    from gif_global_scale_cases [OF g1] have m1: "\<forall>e \<in> set ev1. \<forall>d. e \<noteq> Mkdir d" by auto
    from gif_max_width_cap_cases [OF g2]
    have t2: "write_paths ev2 = [] \<and> video_writes ev2 = [] \<and> filter is_engine_call ev2 = ev2"
      by (intro resize_no_writes [of _ c1]) simp
    from gif_max_width_cap_cases [OF g2] have m2: "\<forall>e \<in> set ev2. \<forall>d. e \<noteq> Mkdir d" by auto
    show ?thesis
    proof (cases e1)
      case (Some e)
      with assms [symmetric] \<open>VideoFileClip eng inp = Some c0\<close> True g1 t1 m1 show ?thesis
        by (simp add: convert_try_def)
    next
      case None
      note n1 = None
      show ?thesis
      proof (cases e2)
        case (Some e)
        with assms [symmetric] \<open>VideoFileClip eng inp = Some c0\<close> True g1 g2 n1 t1 t2 m1 m2
        show ?thesis
          by (auto simp: convert_try_def write_paths_append video_writes_append)
      next
        case None
        with assms [symmetric] \<open>VideoFileClip eng inp = Some c0\<close> True g1 g2 n1 t1 t2 m1 m2
        show ?thesis
          by (auto simp: convert_try_def Let_def write_paths_append video_writes_append)
      qed
    qed
  qed
qed


lemma convert_single_video_unfold:
  assumes "\<not> mkdir_raises eng (str_path (output_dir_of cfg (Path inp)))"
    and "convert_try eng cfg (str_path (Path inp)) fmt
           (str_path (joinpath (output_dir_of cfg (Path inp))
              (path_stem (Path inp) @ ''.'' @ lower fmt))) = (err, cl, evs)"
  shows "convert_single_video eng cfg inp fmt =
     ((case err of
         Some e \<Rightarrow> Inl e
       | None \<Rightarrow> Inr (str_path (joinpath (output_dir_of cfg (Path inp))
                          (path_stem (Path inp) @ ''.'' @ lower fmt)))),
      Mkdir (str_path (output_dir_of cfg (Path inp)))
        # Log (Converting_file (path_name (Path inp)))
        # evs @ (case cl of Some c \<Rightarrow> [Close c] | None \<Rightarrow> []))"
  using assms by (simp add: convert_single_video_def Let_def split: option.splits)

lemma convert_single_video_mkdir_raises:
  "mkdir_raises eng (str_path (output_dir_of cfg (Path inp))) \<Longrightarrow>
     convert_single_video eng cfg inp fmt =
       (Inl OutputPathError, [Mkdir (str_path (output_dir_of cfg (Path inp)))])"
  by (simp add: convert_single_video_def Let_def)






text \<open>
  Claim C8. When \<^verbatim>\<open>VideoFileClip\<close> returns a clip, \<^verbatim>\<open>convert_single_video\<close> closes
  exactly one clip, last of all and on the reader that was opened, whether it returns
  or a resize or a write raises; when \<^verbatim>\<open>VideoFileClip\<close> raises nothing is closed. When
  \<^verbatim>\<open>mkdir\<close> raises the engine is not called at all.
\<close>

theorem clip_closed_exactly_once:
  "(case VideoFileClip eng (str_path (Path inp)) of
      Some c0 \<Rightarrow>
        \<not> mkdir_raises eng (str_path (output_dir_of cfg (Path inp))) \<longrightarrow>
        (\<exists>c. closes (snd (convert_single_video eng cfg inp fmt)) = [c] \<and>
             reader c = reader c0 \<and>
             last (snd (convert_single_video eng cfg inp fmt)) = Close c)
    | None \<Rightarrow> closes (snd (convert_single_video eng cfg inp fmt)) = []) \<and>
   (mkdir_raises eng (str_path (output_dir_of cfg (Path inp))) \<longrightarrow>
      filter is_engine_call (snd (convert_single_video eng cfg inp fmt)) = [])"
proof (cases "mkdir_raises eng (str_path (output_dir_of cfg (Path inp)))")
  case True
  then show ?thesis
    by (simp add: convert_single_video_mkdir_raises split: option.splits)
next
  case False
  let ?out = "str_path (joinpath (output_dir_of cfg (Path inp))
                        (path_stem (Path inp) @ ''.'' @ lower fmt))"
  obtain err cl evs where
    t: "convert_try eng cfg (str_path (Path inp)) fmt ?out = (err, cl, evs)"
    by (cases "convert_try eng cfg (str_path (Path inp)) fmt ?out")
  note u = convert_single_video_unfold [OF False t]
  note c = convert_try_cases [OF t]
  show ?thesis
  proof (cases "VideoFileClip eng (str_path (Path inp))")
    case None
    with c False show ?thesis unfolding u by (simp add: closes_append)
  next
    case (Some c0)
    with c obtain c1 where c1: "cl = Some c1" "reader c1 = reader c0" by auto
    from c have "closes evs = []" by simp
    with Some c1 False show ?thesis unfolding u by (simp add: closes_append)
  qed
qed

lemma failing_conversion:
  "convert_single_video failing_engine example_batch ''/v/two.mov'' ''MP4''
     = (Inl EncodeError,
        [Mkdir ''/v'', Log (Converting_file ''two.mov''), Open_clip ''/v/two.mov'',
         Write_videofile example_clip ''/v/two.mp4'' ''libx264'' ''aac'',
         Close example_clip])"
  by (simp add: convert_single_video_def convert_try_def codec_map_def
        example_engine_def failing_engine_def example_batch_def
        output_dir_of_def str_path_def joinpath_def path_parent_def Path_def
        path_stem_def path_name_def rfind_def lower_def lower_char_def parse_root_def Let_def)

theorem clip_closed_exactly_once_witness:
  "VideoFileClip failing_engine (str_path (Path ''/v/two.mov'')) = Some example_clip \<and>
   \<not> mkdir_raises failing_engine (str_path (output_dir_of example_batch (Path ''/v/two.mov''))) \<and>
   fst (convert_single_video failing_engine example_batch ''/v/two.mov'' ''MP4'')
     = Inl EncodeError \<and>
   closes (snd (convert_single_video failing_engine example_batch ''/v/two.mov'' ''MP4''))
     = [example_clip] \<and>
   last (snd (convert_single_video failing_engine example_batch ''/v/two.mov'' ''MP4''))
     = Close example_clip"
proof -
  have o: "VideoFileClip failing_engine (str_path (Path ''/v/two.mov'')) = Some example_clip"
    by (simp add: failing_engine_def example_engine_def)
  have m: "\<not> mkdir_raises failing_engine
      (str_path (output_dir_of example_batch (Path ''/v/two.mov'')))"
    by (simp add: failing_engine_def example_engine_def)
  from clip_closed_exactly_once [where eng = failing_engine and inp = "''/v/two.mov''"
      and cfg = example_batch and fmt = "''MP4''"]
  show ?thesis using o m by (simp add: failing_conversion)
qed

text \<open>
  Claim C10. For the target format AVI the video writer is called with the codec
  \<^verbatim>\<open>mpeg4\<close> and the audio codec \<^verbatim>\<open>libvorbis\<close>. For a target format that is not a key
  of the codec table, every call of the video writer uses \<^verbatim>\<open>libx264\<close> (and there is
  one, unless the format is GIF, which goes to \<^verbatim>\<open>write_gif\<close>).
\<close>

theorem avi_codecs_and_fallback:
  "(\<not> mkdir_raises eng (str_path (output_dir_of cfg (Path inp))) \<and>
    VideoFileClip eng (str_path (Path inp)) \<noteq> None \<longrightarrow>
      video_writes (snd (convert_single_video eng cfg inp ''AVI''))
        = [(''mpeg4'', ''libvorbis'')] \<and>
      (fmt \<noteq> ''GIF'' \<and> map_of codec_map fmt = None \<longrightarrow>
         video_writes (snd (convert_single_video eng cfg inp fmt))
           = [(''libx264'', ''libvorbis'')])) \<and>
   set (video_writes (snd (convert_single_video eng cfg inp ''AVI'')))
     \<subseteq> {(''mpeg4'', ''libvorbis'')} \<and>
   (map_of codec_map fmt = None \<longrightarrow>
      fst ` set (video_writes (snd (convert_single_video eng cfg inp fmt))) \<subseteq> {''libx264''})"
proof -
  let ?d = "str_path (output_dir_of cfg (Path inp))"
  have vw: "video_writes (snd (convert_single_video eng cfg inp f)) =
      (if mkdir_raises eng ?d then []
       else case VideoFileClip eng (str_path (Path inp)) of
              None \<Rightarrow> []
            | Some c0 \<Rightarrow>
                if f = ''GIF'' then []
                else [(case map_of codec_map f of Some c \<Rightarrow> c | None \<Rightarrow> ''libx264'',
                       if f \<in> set [''MP4'', ''MOV'', ''MKV''] then ''aac''
                       else ''libvorbis'')])" for f
  proof (cases "mkdir_raises eng ?d")
    case True
    then show ?thesis by (simp add: convert_single_video_mkdir_raises)
  next
    case False
    let ?out = "str_path (joinpath (output_dir_of cfg (Path inp))
                        (path_stem (Path inp) @ ''.'' @ lower f))"
    obtain err cl evs where
      t: "convert_try eng cfg (str_path (Path inp)) f ?out = (err, cl, evs)"
      by (cases "convert_try eng cfg (str_path (Path inp)) f ?out")
    from convert_try_writes [OF t] False show ?thesis
      unfolding convert_single_video_unfold [OF False t]
      by (simp add: video_writes_append split: option.splits)
  qed
  have avi: "map_of codec_map ''AVI'' = Some ''mpeg4''" by (simp add: codec_map_def)
  have keys: "map_of codec_map fmt = None \<Longrightarrow> fmt \<notin> set [''MP4'', ''MOV'', ''MKV'']"
    by (auto simp: codec_map_def)
  show ?thesis
    unfolding vw using avi keys by (auto split: option.splits)
qed

lemma avi_conversion:
  "convert_single_video example_engine example_batch ''/v/one.mov'' ''AVI''
     = (Inr ''/v/one.avi'',
        [Mkdir ''/v'', Log (Converting_file ''one.mov''), Open_clip ''/v/one.mov'',
         Write_videofile example_clip ''/v/one.avi'' ''mpeg4'' ''libvorbis'',
         Close example_clip])"
  by (simp add: convert_single_video_def convert_try_def codec_map_def
        example_engine_def example_batch_def
        output_dir_of_def str_path_def joinpath_def path_parent_def Path_def
        path_stem_def path_name_def rfind_def lower_def lower_char_def parse_root_def Let_def)

theorem avi_codecs_and_fallback_witness:
  "\<not> mkdir_raises example_engine (str_path (output_dir_of example_batch (Path ''/v/one.mov''))) \<and>
   VideoFileClip example_engine (str_path (Path ''/v/one.mov'')) \<noteq> None \<and>
   ''gif'' \<noteq> ''GIF'' \<and> map_of codec_map ''gif'' = None \<and>
   video_writes (snd (convert_single_video example_engine example_batch ''/v/one.mov'' ''AVI''))
     = [(''mpeg4'', ''libvorbis'')] \<and>
   video_writes (snd (convert_single_video example_engine example_batch ''/v/one.mov'' ''gif''))
     = [(''libx264'', ''libvorbis'')]"
proof -
  have m: "\<not> mkdir_raises example_engine
      (str_path (output_dir_of example_batch (Path ''/v/one.mov'')))"
    by (simp add: example_engine_def)
  have o: "VideoFileClip example_engine (str_path (Path ''/v/one.mov'')) \<noteq> None"
    by (simp add: example_engine_def)
  have g: "''gif'' \<noteq> ''GIF''" "map_of codec_map ''gif'' = None"
    by (simp_all add: codec_map_def)
  from avi_codecs_and_fallback [where eng = example_engine and cfg = example_batch
      and inp = "''/v/one.mov''" and fmt = "''gif''"]
  show ?thesis using m o g by simp
qed

end
